theory Spec2Isabelle
  imports Complex_Main "HOL-Library.Word"
begin

unbundle bit_operations_syntax

section \<open>The blinky demo of CORTEX\_M3\_MPS2\_QEMU\_GCC: data model\<close>

text \<open>
  The demo is built for a Cortex-M3 (ILP32): \<^verbatim>\<open>uint32_t\<close>, \<^verbatim>\<open>unsigned long\<close>,
  \<^verbatim>\<open>long\<close> and \<^verbatim>\<open>TickType_t\<close> are 32 bits wide, \<^verbatim>\<open>uint64_t\<close> is 64 bits wide.
  Unsigned values are words read with \<open>uint\<close>; the \<^verbatim>\<open>long\<close> variable
  \<^verbatim>\<open>GRADIENT\<close> is a word read in two's complement with \<open>sint\<close>.
\<close>

type_synonym uint32_t = "32 word"
type_synonym uint64_t = "64 word"
type_synonym long = "32 word"
type_synonym TickType_t = "32 word"

subsection \<open>Constants (main\_blinky.c, lines 43 to 51)\<close>

definition VOLTAGE_LOWER_BOUND :: "32 word" where
  "VOLTAGE_LOWER_BOUND = 0"

definition VOLTAGE_UPPER_BOUND :: "32 word" where
  "VOLTAGE_UPPER_BOUND = 10000"

text \<open>
  \<^verbatim>\<open>static long GRADIENT = (VOLTAGE_UPPER_BOUND - VOLTAGE_LOWER_BOUND) / 20UL;\<close>
  The quotient is computed in \<^verbatim>\<open>unsigned long\<close> and converted to \<^verbatim>\<open>long\<close>.
\<close>

definition GRADIENT_init :: long where
  "GRADIENT_init = (VOLTAGE_UPPER_BOUND - VOLTAGE_LOWER_BOUND) div 20"

subsection \<open>The producer's waveform state\<close>

text \<open>
  The state of \<^verbatim>\<open>prvQueueSendTask\<close>: its local \<^verbatim>\<open>uint32_t ulValueToSend\<close> and the
  file-scope \<^verbatim>\<open>long GRADIENT\<close>.
\<close>

record waveform =
  ulValueToSend :: uint32_t
  GRADIENT :: long

definition waveform_init :: waveform where
  "waveform_init = \<lparr> ulValueToSend = VOLTAGE_LOWER_BOUND, GRADIENT = GRADIENT_init \<rparr>"

text \<open>
  Lines 106 to 113 of \<^verbatim>\<open>prvQueueSendTask\<close>:
  \<^verbatim>\<open>
    if(ulValueToSend >= VOLTAGE_UPPER_BOUND) {
        GRADIENT *= -1;
    } else if (GRADIENT < 0 && ulValueToSend <= VOLTAGE_LOWER_BOUND) {
        GRADIENT *= -1;
    }
    ulValueToSend += GRADIENT;
  \<close>
  The comparisons of \<^verbatim>\<open>ulValueToSend\<close> are unsigned, \<^verbatim>\<open>GRADIENT < 0\<close> is signed.
  In the addition \<^verbatim>\<open>GRADIENT\<close> is converted to the unsigned type, and the sum is
  taken modulo \<open>2 ^ 32\<close> (with a 64-bit \<^verbatim>\<open>long\<close> the sum is converted back to
  \<^verbatim>\<open>uint32_t\<close>, with the same result). The product \<^verbatim>\<open>GRADIENT * -1\<close> is the two's complement
  negation (it differs from the mathematical one only at \<^verbatim>\<open>LONG_MIN\<close>, where C leaves
  the product undefined).
\<close>

definition reflect :: "waveform \<Rightarrow> long" where
  "reflect s =
     (if ulValueToSend s \<ge> VOLTAGE_UPPER_BOUND then GRADIENT s * (- 1)
      else if GRADIENT s <s 0 \<and> ulValueToSend s \<le> VOLTAGE_LOWER_BOUND then GRADIENT s * (- 1)
      else GRADIENT s)"

definition waveform_update :: "waveform \<Rightarrow> waveform" where
  "waveform_update s =
     (let g = reflect s
      in \<lparr> ulValueToSend = ulValueToSend s + g, GRADIENT = g \<rparr>)"

subsection \<open>The packed message\<close>

text \<open>
  Lines 116 to 118 of \<^verbatim>\<open>prvQueueSendTask\<close>:
  \<^verbatim>\<open>
    uint64_t msg = ((uint64_t)xTaskGetTickCount()) << 32;
    msg |= ulValueToSend;
  \<close>
\<close>

definition encode :: "TickType_t \<Rightarrow> uint32_t \<Rightarrow> uint64_t" where
  "encode t v = push_bit 32 (ucast t :: uint64_t) OR ucast v"

text \<open>
  Lines 145 and 146 of \<^verbatim>\<open>prvQueueReceiveTask\<close>:
  \<^verbatim>\<open>
    TickType_t tick = (uint32_t) (ulReceivedValue >> 32);
    uint32_t reading = (uint32_t) ulReceivedValue;
  \<close>
\<close>

definition decode :: "uint64_t \<Rightarrow> TickType_t \<times> uint32_t" where
  "decode w = (ucast (drop_bit 32 w), ucast w)"

subsection \<open>Running the producer\<close>

text \<open>
  The values placed in the messages by the first \<open>n\<close> cycles of the loop of
  \<^verbatim>\<open>prvQueueSendTask\<close>, started in state \<open>s\<close>: each cycle updates the waveform and
  sends the updated \<^verbatim>\<open>ulValueToSend\<close>.
\<close>

primrec samples :: "nat \<Rightarrow> waveform \<Rightarrow> uint32_t list" where
  "samples 0 s = []"
| "samples (Suc n) s = ulValueToSend (waveform_update s) # samples n (waveform_update s)"

subsection \<open>The queue and one cycle of the producer\<close>

definition mainQUEUE_LENGTH :: nat where
  "mainQUEUE_LENGTH = 1"

text \<open>
  The queue holds at most \<^verbatim>\<open>mainQUEUE_LENGTH\<close> items of type \<^verbatim>\<open>uint64_t\<close>, oldest first.
\<close>

type_synonym queue = "uint64_t list"

datatype BaseType_t = pdPASS | errQUEUE_FULL

datatype send_result = Returned BaseType_t queue | Blocked

text \<open>
  Modelled from the spec: \<^verbatim>\<open>xQueueSend\<close> is part of the FreeRTOS kernel (queue.c),
  which is not among the sources. The specification's channel contract: a publish
  succeeds when the channel has room; with a zero wait a publish to a full channel fails
  at once, does not block and leaves the occupied slot as it is; with a non-zero wait
  the caller is suspended.
\<close>

definition xQueueSend :: "queue \<Rightarrow> uint64_t \<Rightarrow> TickType_t \<Rightarrow> send_result" where
  "xQueueSend q item xTicksToWait =
     (if length q < mainQUEUE_LENGTH then Returned pdPASS (q @ [item])
      else if xTicksToWait = 0 then Returned errQUEUE_FULL q
      else Blocked)"

text \<open>
  The kernel calls of the producer's loop, with what they are given and what they return:
  the tick count returned by \<^verbatim>\<open>xTaskGetTickCount\<close>; the item, the block time and
  the status returned by \<^verbatim>\<open>xQueueSend\<close>.
\<close>

datatype producer_call =
  Call_vTaskDelayUntil
| Call_xTaskGetTickCount TickType_t
| Call_xQueueSend uint64_t TickType_t BaseType_t

text \<open>
  One pass through the loop body of \<^verbatim>\<open>prvQueueSendTask\<close> (lines 103 to 124):
  \<^verbatim>\<open>
    vTaskDelayUntil( &xNextWakeTime, mainQUEUE_SEND_FREQUENCY_MS );
    ... the update of the waveform ...
    uint64_t msg = ((uint64_t)xTaskGetTickCount()) << 32;
    msg |= ulValueToSend;
    xQueueSend( xQueue, &msg, 0U );
  \<close>
  \<open>tick\<close> is what \<^verbatim>\<open>xTaskGetTickCount\<close> returns. The value returned by
  \<^verbatim>\<open>xQueueSend\<close> is discarded: it appears in the list of calls and nowhere else. The
  result is the waveform, the queue and the calls made, in order; it is \<open>None\<close> when
  the task does not reach the end of the loop body.
\<close>

definition prvQueueSendTask_cycle ::
    "TickType_t \<Rightarrow> waveform \<times> queue \<Rightarrow> (waveform \<times> queue \<times> producer_call list) option" where
  "prvQueueSendTask_cycle tick p =
     (let s = waveform_update (fst p);
          msg = encode tick (ulValueToSend s)
      in case xQueueSend (snd p) msg 0 of
           Returned status q \<Rightarrow>
             Some (s, q, [Call_vTaskDelayUntil, Call_xTaskGetTickCount tick,
                          Call_xQueueSend msg 0 status])
         | Blocked \<Rightarrow> None)"

text \<open>
  Consecutive cycles of the producer at the given tick counts, while the consumer does
  not run: the \<^verbatim>\<open>for( ;; )\<close> of \<^verbatim>\<open>prvQueueSendTask\<close>, cut off after as many passes
  as there are tick counts.
\<close>

fun prvQueueSendTask_cycles ::
    "TickType_t list \<Rightarrow> waveform \<times> queue \<Rightarrow> (waveform \<times> queue \<times> producer_call list) option" where
  "prvQueueSendTask_cycles [] p = Some (fst p, snd p, [])"
| "prvQueueSendTask_cycles (tick # ticks) p =
     (case prvQueueSendTask_cycle tick p of
        None \<Rightarrow> None
      | Some (s, q, calls) \<Rightarrow>
          (case prvQueueSendTask_cycles ticks (s, q) of
             None \<Rightarrow> None
           | Some (s', q', calls') \<Rightarrow> Some (s', q', calls @ calls')))"

text \<open>
  The calls of a cycle that reads the tick count \<open>tick\<close>, sends the value \<open>v\<close> and
  is answered \<open>status\<close>; and the calls of consecutive cycles whose sends are all refused.
\<close>

definition cycle_calls :: "TickType_t \<Rightarrow> uint32_t \<Rightarrow> BaseType_t \<Rightarrow> producer_call list" where
  "cycle_calls tick v status =
     [Call_vTaskDelayUntil, Call_xTaskGetTickCount tick, Call_xQueueSend (encode tick v) 0 status]"

definition refused_calls :: "TickType_t list \<Rightarrow> waveform \<Rightarrow> producer_call list" where
  "refused_calls ticks s =
     concat (map2 (\<lambda>tick v. cycle_calls tick v errQUEUE_FULL) ticks (samples (length ticks) s))"

subsection \<open>Start-up\<close>

text \<open>
  \<^verbatim>\<open>main_blinky\<close> (lines 53 to 87). What the kernel calls return is the environment:
  whether \<^verbatim>\<open>xQueueCreate\<close> returns a handle, whether each \<^verbatim>\<open>xTaskCreate\<close> creates
  its task, and whether \<^verbatim>\<open>vTaskStartScheduler\<close> starts the scheduler (it returns only
  when it cannot). The function never returns: it ends either inside the running
  scheduler or in the final \<^verbatim>\<open>for( ;; );\<close>.
\<close>

record startup_env =
  queue_created :: bool
  rx_created :: bool
  tx_created :: bool
  scheduler_started :: bool

datatype task = Rx | TX

datatype kernel_call =
  Call_xQueueCreate | Call_xTaskCreate task | Call_vTaskStartScheduler

datatype outcome = Scheduler_running "task list" | Idle_loop "task list"

definition main_blinky :: "startup_env \<Rightarrow> kernel_call list \<times> outcome" where
  "main_blinky env =
     (if queue_created env then
        (let tasks = (if rx_created env then [Rx] else []) @ (if tx_created env then [TX] else [])
         in ([Call_xQueueCreate, Call_xTaskCreate Rx, Call_xTaskCreate TX, Call_vTaskStartScheduler],
             if scheduler_started env then Scheduler_running tasks else Idle_loop tasks))
      else ([Call_xQueueCreate], Idle_loop []))"

subsection \<open>The consumer's conversion\<close>

text \<open>
  Lines 46 to 50:
  \<^verbatim>\<open>
    #define TEMPERATURE_LOWER_BOUND             -25000L
    #define TEMPERATURE_UPPER_BOUND             85000L
    const long VOLTAGE_RANGE = VOLTAGE_UPPER_BOUND - VOLTAGE_LOWER_BOUND;
    const long TEMPERATURE_RANGE = TEMPERATURE_UPPER_BOUND - TEMPERATURE_LOWER_BOUND;
  \<close>
\<close>

definition TEMPERATURE_LOWER_BOUND :: long where
  "TEMPERATURE_LOWER_BOUND = - 25000"

definition TEMPERATURE_UPPER_BOUND :: long where
  "TEMPERATURE_UPPER_BOUND = 85000"

definition VOLTAGE_RANGE :: long where
  "VOLTAGE_RANGE = VOLTAGE_UPPER_BOUND - VOLTAGE_LOWER_BOUND"

definition TEMPERATURE_RANGE :: long where
  "TEMPERATURE_RANGE = TEMPERATURE_UPPER_BOUND - TEMPERATURE_LOWER_BOUND"

text \<open>
  The conversion is computed in \<^verbatim>\<open>double\<close>, the IEEE 754 binary64 format. A finite
  double is modelled as the real number it denotes, and every operation as the exact
  operation followed by rounding to the nearest double, ties to the even significand
  (the default rounding mode). Infinities and NaNs are not modelled: the operands here
  are 32-bit integers and three constants, so every result is below \<open>2 ^ 1024\<close> in
  magnitude, and the divisor is not zero.
\<close>

type_synonym double = real

text \<open>The number of binary digits of a positive integer.\<close>

function bit_length :: "int \<Rightarrow> nat" where
  "bit_length k = (if k \<le> 0 then 0 else Suc (bit_length (k div 2)))"
  by pat_completeness auto

termination bit_length
  by (relation "measure nat") auto

declare bit_length.simps [simp del]

text \<open>For \<open>x > 0\<close>, the exponent \<open>e\<close> with \<open>2 ^ e \<le> x < 2 ^ (e + 1)\<close>.\<close>

definition floor_log2 :: "real \<Rightarrow> int" where
  "floor_log2 x =
     (if 1 \<le> x then int (bit_length \<lfloor>x\<rfloor>) - 1
      else - int (bit_length (\<lceil>1 / x\<rceil> - 1)))"

definition round_half_even :: "real \<Rightarrow> int" where
  "round_half_even y =
     (let f = \<lfloor>y\<rfloor>; d = y - of_int f
      in if d < 1 / 2 then f else if 1 / 2 < d then f + 1 else if even f then f else f + 1)"

text \<open>
  Rounding to binary64: 53 significant bits, the exponent not below \<open>-1022\<close> (below
  that the spacing of the subnormal numbers stays \<open>2 ^ (-1074)\<close>).
\<close>

definition round_double :: "real \<Rightarrow> double" where
  "round_double x =
     (if x = 0 then 0
      else let e = max (floor_log2 \<bar>x\<bar>) (- 1022);
               ulp = 2 powi (e - 52)
           in of_int (round_half_even (x / ulp)) * ulp)"

text \<open>The conversions of \<^verbatim>\<open>unsigned long\<close> and of \<^verbatim>\<open>long\<close> to \<^verbatim>\<open>double\<close>.\<close>

definition double_of_ulong :: "32 word \<Rightarrow> double" where
  "double_of_ulong w = round_double (of_int (uint w))"

definition double_of_long :: "long \<Rightarrow> double" where
  "double_of_long w = round_double (of_int (sint w))"

text \<open>
  The conversion of a \<^verbatim>\<open>double\<close> to \<^verbatim>\<open>long\<close> discards the fractional part
  (truncation toward zero); C leaves it undefined when the integral part is not a
  \<^verbatim>\<open>long\<close>, which is \<open>None\<close> here.
\<close>

definition long_of_double :: "double \<Rightarrow> long option" where
  "long_of_double x =
     (let k = (if 0 \<le> x then \<lfloor>x\<rfloor> else \<lceil>x\<rceil>)
      in if - 2147483648 \<le> k \<and> k \<le> 2147483647 then Some (word_of_int k) else None)"

text \<open>
  Line 149 of \<^verbatim>\<open>prvQueueReceiveTask\<close>:
  \<^verbatim>\<open>
    long temperature = (reading - VOLTAGE_LOWER_BOUND) / (double)VOLTAGE_RANGE
                         * TEMPERATURE_RANGE + TEMPERATURE_LOWER_BOUND;
  \<close>
  The difference is taken in \<^verbatim>\<open>unsigned long\<close>; quotient, product and sum are taken
  in \<^verbatim>\<open>double\<close>, from left to right; the initialisation converts the sum to
  \<^verbatim>\<open>long\<close>.
\<close>

definition temperature :: "uint32_t \<Rightarrow> long option" where
  "temperature reading =
     (let quotient = round_double (double_of_ulong (reading - VOLTAGE_LOWER_BOUND)
                                     / double_of_long VOLTAGE_RANGE);
          product = round_double (quotient * double_of_long TEMPERATURE_RANGE);
          sum = round_double (product + double_of_long TEMPERATURE_LOWER_BOUND)
      in long_of_double sum)"

text \<open>
  One pass through the loop body of \<^verbatim>\<open>prvQueueReceiveTask\<close> for a received word: the
  tick count and the temperature that are printed.
\<close>

definition prvQueueReceiveTask_report :: "uint64_t \<Rightarrow> TickType_t \<times> long option" where
  "prvQueueReceiveTask_report ulReceivedValue =
     (let tick = fst (decode ulReceivedValue);
          reading = snd (decode ulReceivedValue)
      in (tick, temperature reading))"

subsection \<open>The waveform as the specification words it\<close>

text \<open>
  Section 4.1 of the specification, steps 1 to 3, over mathematical integers:
  if \<open>v \<ge> RAW_HIGH\<close> negate \<open>g\<close>; else if \<open>g < 0\<close> and \<open>v \<le> RAW_LOW\<close> negate \<open>g\<close>;
  then \<open>v' = v + g\<close>.
\<close>

definition RAW_LOW :: int where
  "RAW_LOW = 0"

definition RAW_HIGH :: int where
  "RAW_HIGH = 10000"

definition STEP_MAGNITUDE :: int where
  "STEP_MAGNITUDE = 500"

definition spec_update :: "int \<times> int \<Rightarrow> int \<times> int" where
  "spec_update p =
     (let v = fst p; g = snd p;
          g' = (if v \<ge> RAW_HIGH then - g else if g < 0 \<and> v \<le> RAW_LOW then - g else g)
      in (v + g', g'))"

text \<open>
  A valid state in the sense of the specification: the value within the raw bounds and
  the step of magnitude \<open>STEP_MAGNITUDE\<close>.
\<close>

definition valid_state :: "waveform \<Rightarrow> bool" where
  "valid_state s \<longleftrightarrow>
     VOLTAGE_LOWER_BOUND \<le> ulValueToSend s \<and> ulValueToSend s \<le> VOLTAGE_UPPER_BOUND \<and>
     (GRADIENT s = GRADIENT_init \<or> GRADIENT s = - GRADIENT_init)"

text \<open>
  The triangular wave of the specification in closed form: \<open>500, 1000, \<dots>, 10000,
  9500, \<dots>, 500, 0\<close>, with period 40.
\<close>

definition triangle :: "nat \<Rightarrow> int" where
  "triangle n = (if n mod 40 \<le> 20 then 500 * int (n mod 40) else 500 * (40 - int (n mod 40)))"

text \<open>
  Section 4.2 of the specification, step 3, over the reals:
  \<open>physical = (raw - RAW_LOW) / (RAW_HIGH - RAW_LOW) * (PHYS_HIGH - PHYS_LOW) + PHYS_LOW\<close>.
\<close>

definition PHYS_LOW :: int where
  "PHYS_LOW = - 25000"

definition PHYS_HIGH :: int where
  "PHYS_HIGH = 85000"

definition spec_convert :: "int \<Rightarrow> real" where
  "spec_convert raw =
     (of_int raw - of_int RAW_LOW) / (of_int RAW_HIGH - of_int RAW_LOW)
       * (of_int PHYS_HIGH - of_int PHYS_LOW) + of_int PHYS_LOW"

subsection \<open>Invariants of the waveform\<close>

text \<open>
  The states reached from valid states: an ascending step with the value at most one
  step above the upper bound, or a descending step with the value within the bounds or
  wrapped around by less than one step below zero.
\<close>

definition wave_inv :: "waveform \<Rightarrow> bool" where
  "wave_inv s \<longleftrightarrow>
     (GRADIENT s = 500 \<and> uint (ulValueToSend s) \<le> 10500) \<or>
     (GRADIENT s = - 500 \<and>
        (uint (ulValueToSend s) \<le> 10000 \<or> 4294966797 \<le> uint (ulValueToSend s)))"

text \<open>
  The state after \<open>n\<close> updates from the initial state: the value on the triangular
  wave, the step ascending in the first half of each period.
\<close>

definition phase_inv :: "nat \<Rightarrow> waveform \<Rightarrow> bool" where
  "phase_inv n s \<longleftrightarrow>
     uint (ulValueToSend s) = triangle n \<and>
     GRADIENT s = (if n = 0 \<or> (1 \<le> n mod 40 \<and> n mod 40 \<le> 20) then 500 else - 500)"

section \<open>Properties\<close>

subsection \<open>Arithmetic of 32-bit words\<close>

lemma mod32_cases:
  assumes "- 4294967296 \<le> (a::int)" "a < 8589934592"
  shows "a mod 4294967296 =
    (if a < 0 then a + 4294967296 else if a < 4294967296 then a else a - 4294967296)"
proof -
  consider (neg) "a < 0" | (mid) "0 \<le> a" "a < 4294967296" | (hi) "4294967296 \<le> a"
    by linarith
  then show ?thesis
  proof cases
    case neg
    have "a mod 4294967296 = (a + 4294967296) mod 4294967296"
      by (simp only: mod_add_self2)
    also have "\<dots> = a + 4294967296"
      using neg assms by (intro mod_pos_pos_trivial) simp_all
    finally show ?thesis using neg by simp
  next
    case mid
    then show ?thesis by simp
  next
    case hi
    have "a mod 4294967296 = (a - 4294967296) mod 4294967296"
      by (simp only: minus_mod_self2)
    also have "\<dots> = a - 4294967296"
      using hi assms by (intro mod_pos_pos_trivial) simp_all
    finally show ?thesis using hi by simp
  qed
qed

lemma sint_32_cases: "sint (w::32 word) = (if uint w < 2147483648 then uint w else uint w - 4294967296)"
proof -
  obtain x where x: "uint w = x" and b: "0 \<le> x" "x < 4294967296"
    using uint_lt2p [of w] by simp
  have "sint w = (x + 2147483648) mod 4294967296 - 2147483648"
    by (simp add: sint_uint signed_take_bit_eq_take_bit_shift take_bit_eq_mod x)
  with b mod32_cases [of "x + 2147483648"] show ?thesis
    by (simp add: x split: if_splits)
qed

lemma uint_add_sint: "uint ((v::32 word) + g) = (uint v + sint g) mod 4294967296"
proof -
  have "v + g = word_of_int (uint v) + word_of_int (sint g)" by simp
  also have "\<dots> = word_of_int (uint v + sint g)" by simp
  finally show ?thesis by (simp only: uint_word_of_int) simp
qed

lemma uint_neg_sint: "uint (- (g::32 word)) = (- sint g) mod 4294967296"
proof -
  have "- g = - word_of_int (sint g)" by simp
  also have "\<dots> = word_of_int (- sint g)" by simp
  finally show ?thesis by (simp only: uint_word_of_int) simp
qed

lemma sint_bounds32: "- 2147483648 \<le> sint (g::32 word)" "sint g < 2147483648"
  using sint_ge [of g] sint_lt [of g] by simp_all

lemma sint_neg: 
  assumes "sint (g::32 word) \<noteq> - 2147483648" shows "sint (- g) = - sint g"
proof -
  obtain y where y: "sint g = y" and b: "- 2147483648 \<le> y" "y < 2147483648"
    using sint_bounds32 [of g] by simp
  have "uint (- g) = (- y) mod 4294967296" using uint_neg_sint [of g] by (simp add: y)
  with mod32_cases [of "- y"] b assms show ?thesis
    by (simp add: sint_32_cases [of "- g"] y split: if_splits)
qed

lemma uint_sub_sint: "uint ((v::32 word) - g) = (uint v - sint g) mod 4294967296"
proof -
  have "v - g = word_of_int (uint v) - word_of_int (sint g)" by simp
  also have "\<dots> = word_of_int (uint v - sint g)" by simp
  finally show ?thesis by (simp only: uint_word_of_int) simp
qed

lemma wrapped_sum_small:
  assumes "- 2147483648 \<le> a" "a < 10000" "uint (w::32 word) = a mod 4294967296" "0 < sint w"
  shows "uint w < 10000"
  using assms mod32_cases [of a]
  by (simp add: sint_32_cases split: if_splits)

lemma sint_500: "sint (500::32 word) = 500" "sint (- 500::32 word) = - 500"
  by simp_all

lemma uint_add_500:
  "uint ((v::32 word) + 500) =
     (if uint v + 500 < 4294967296 then uint v + 500 else uint v + 500 - 4294967296)"
  by (simp add: uint_plus_if')

lemma uint_sub_500:
  "uint ((v::32 word) - 500) =
     (if 500 \<le> uint v then uint v - 500 else uint v - 500 + 4294967296)"
  by (simp add: uint_sub_if')

lemma funpow_num: "(f ^^ numeral k) x = (f ^^ pred_numeral k) (f x)"
  by (simp add: numeral_eq_Suc funpow_swap1)

subsection \<open>Rounding to double\<close>

lemma round_half_even_error: "\<bar>real_of_int (round_half_even y) - y\<bar> \<le> 1 / 2"
proof -
  have "real_of_int \<lfloor>y\<rfloor> \<le> y" "y < real_of_int \<lfloor>y\<rfloor> + 1"
    by linarith+
  then show ?thesis
    by (auto simp add: round_half_even_def Let_def)
qed

lemma bit_length_upper: "k < 2 ^ bit_length k"
proof (induction k rule: bit_length.induct)
  case (1 k)
  show ?case
  proof (cases "k \<le> 0")
    case True
    then show ?thesis by (simp add: bit_length.simps [of k])
  next
    case False
    then have "k div 2 < 2 ^ bit_length (k div 2)" by (rule 1)
    then have "k < 2 * 2 ^ bit_length (k div 2)" by linarith
    with False show ?thesis by (simp add: bit_length.simps [of k])
  qed
qed

lemma bit_length_lower: "0 < k \<Longrightarrow> 2 ^ (bit_length k - 1) \<le> k"
proof (induction k rule: bit_length.induct)
  case (1 k)
  then have pos: "\<not> k \<le> 0" by simp
  show ?case
  proof (cases "k div 2 \<le> 0")
    case True
    then have "bit_length (k div 2) = 0" by (simp add: bit_length.simps [of "k div 2"])
    with pos 1(2) show ?thesis by (simp add: bit_length.simps [of k])
  next
    case False
    then have "2 ^ (bit_length (k div 2) - 1) \<le> k div 2" using 1(1) [OF pos] by simp
    moreover have "0 < bit_length (k div 2)"
      using False by (simp add: bit_length.simps [of "k div 2"])
    ultimately have "2 ^ bit_length (k div 2) \<le> 2 * (k div 2)"
      by (cases "bit_length (k div 2)") simp_all
    then have "2 ^ bit_length (k div 2) \<le> k" by linarith
    with pos show ?thesis by (simp add: bit_length.simps [of k])
  qed
qed

lemma floor_log2_le:
  assumes "0 < x" shows "2 powi (floor_log2 x) \<le> x"
proof (cases "1 \<le> x")
  case True
  then have pos: "0 < \<lfloor>x\<rfloor>" by linarith
  then have "0 < bit_length \<lfloor>x\<rfloor>" by (simp add: bit_length.simps [of "\<lfloor>x\<rfloor>"])
  then have "floor_log2 x = int (bit_length \<lfloor>x\<rfloor> - 1)"
    using True by (simp add: floor_log2_def)
  then have "2 powi (floor_log2 x) = real_of_int (2 ^ (bit_length \<lfloor>x\<rfloor> - 1))"
    by simp
  also have "\<dots> \<le> real_of_int \<lfloor>x\<rfloor>"
    using bit_length_lower [OF pos] by (simp only: of_int_le_iff)
  also have "\<dots> \<le> x" by linarith
  finally show ?thesis .
next
  case False
  define n where "n = bit_length (\<lceil>1 / x\<rceil> - 1)"
  have "\<lceil>1 / x\<rceil> - 1 < 2 ^ n" unfolding n_def by (rule bit_length_upper)
  then have "\<lceil>1 / x\<rceil> \<le> 2 ^ n" by linarith
  then have "1 / x \<le> real_of_int (2 ^ n)" by (rule ceiling_le_iff [THEN iffD1])
  then have "1 / x \<le> 2 ^ n" by simp
  then have "1 \<le> 2 ^ n * x" using assms by (simp add: field_simps)
  then have "1 / 2 ^ n \<le> x" by (simp add: field_simps)
  moreover have "2 powi (floor_log2 x) = (1::real) / 2 ^ n"
    using False by (simp add: floor_log2_def n_def power_int_minus_divide)
  ultimately show ?thesis by simp
qed

lemma round_double_error:
  assumes "\<bar>x\<bar> < 2 powi k" and "- 1021 \<le> k"
  shows "\<bar>round_double x - x\<bar> \<le> 2 powi (k - 54)"
proof (cases "x = 0")
  case True
  then show ?thesis by (simp add: round_double_def)
next
  case False
  define e where "e = max (floor_log2 \<bar>x\<bar>) (- 1022)"
  define ulp :: real where "ulp = 2 powi (e - 52)"
  have "2 powi (floor_log2 \<bar>x\<bar>) \<le> \<bar>x\<bar>"
    using False by (intro floor_log2_le) simp
  with assms(1) have "(2::real) powi (floor_log2 \<bar>x\<bar>) < 2 powi k" by linarith
  then have "floor_log2 \<bar>x\<bar> < k"
    using power_int_increasing [of k "floor_log2 \<bar>x\<bar>" "2::real"] by (cases "floor_log2 \<bar>x\<bar> < k") auto
  with assms(2) have e: "e \<le> k - 1" by (simp add: e_def)
  have ulp_pos: "0 < ulp" by (simp add: ulp_def)
  have rd: "round_double x = real_of_int (round_half_even (x / ulp)) * ulp"
    using False by (simp add: round_double_def Let_def e_def ulp_def)
  have "round_double x - x = (real_of_int (round_half_even (x / ulp)) - x / ulp) * ulp"
    using ulp_pos by (simp add: rd field_simps)
  then have "\<bar>round_double x - x\<bar> = \<bar>real_of_int (round_half_even (x / ulp)) - x / ulp\<bar> * ulp"
    using ulp_pos by (simp add: abs_mult)
  also have "\<dots> \<le> 1 / 2 * ulp"
    using round_half_even_error [of "x / ulp"] ulp_pos by (intro mult_right_mono) simp_all
  also have "\<dots> = 2 powi (e - 53)"
    using power_int_add [of "2::real" "e - 53" 1] by (simp add: ulp_def)
  also have "\<dots> \<le> 2 powi (k - 54)"
    using e by (intro power_int_increasing) simp_all
  finally show ?thesis .
qed

lemma round_double_error_17:
  assumes "\<bar>x\<bar> < 131072"
  shows "\<bar>round_double x - x\<bar> \<le> 1 / 137438953472"
  using round_double_error [of x 17] assms by simp

lemma sint_word_of_int_32:
  assumes "- 2147483648 \<le> k" "k \<le> 2147483647"
  shows "sint (word_of_int k :: 32 word) = k"
  using assms by (simp add: sint_sbintrunc' signed_take_bit_int_eq_self)

lemmas round_double_eval =
  round_double_def floor_log2_def bit_length.simps round_half_even_def Let_def

lemma double_constants:
  "double_of_long VOLTAGE_RANGE = 10000"
  "double_of_long TEMPERATURE_RANGE = 110000"
  "double_of_long TEMPERATURE_LOWER_BOUND = - 25000"
  by (simp_all add: double_of_long_def VOLTAGE_RANGE_def TEMPERATURE_RANGE_def
      TEMPERATURE_LOWER_BOUND_def TEMPERATURE_UPPER_BOUND_def VOLTAGE_UPPER_BOUND_def
      VOLTAGE_LOWER_BOUND_def round_double_eval)

subsection \<open>The message: encode and decode\<close>

text \<open>
  Claim C1. For every 32-bit tick count \<open>t\<close> and every raw value \<open>v\<close> from 0 to
  10000, decoding the 64-bit word \<open>(t << 32) | v\<close> that the producer builds gives back
  \<open>(t, v)\<close>.
\<close>

theorem roundtrip:
  assumes "v \<le> VOLTAGE_UPPER_BOUND"
  shows "decode (encode t v) = (t, v)"
  unfolding decode_def encode_def
  by (auto simp add: bit_eq_iff bit_simps dest: bit_imp_le_length)

text \<open>
  The theorem at \<open>t = 7\<close>, \<open>v = 500\<close>: the word is \<open>7 * 2 ^ 32 + 500\<close> and decodes
  to \<open>(7, 500)\<close>.
\<close>

theorem roundtrip_witness:
  "(500::32 word) \<le> VOLTAGE_UPPER_BOUND \<and> encode 7 500 = 7 * 2 ^ 32 + 500 \<and>
   decode (7 * 2 ^ 32 + 500) = (7, 500) \<and> decode (encode 7 500) = (7, 500)"
proof -
  have h: "(500::32 word) \<le> VOLTAGE_UPPER_BOUND" by (simp add: VOLTAGE_UPPER_BOUND_def)
  have e: "encode 7 500 = 7 * 2 ^ 32 + 500" by (simp add: encode_def)
  have d: "decode (encode 7 500) = (7, 500)"
    by (rule roundtrip [OF h, of 7])
  have d': "decode (7 * 2 ^ 32 + 500) = (7, 500)"
    using d unfolding e .
  show ?thesis by (intro conjI h e d d')
qed

subsection \<open>One update of the waveform\<close>

lemma GRADIENT_init_val: "GRADIENT_init = 500"
  by (simp add: GRADIENT_init_def VOLTAGE_UPPER_BOUND_def VOLTAGE_LOWER_BOUND_def)

lemma reflect_cases:
  "reflect s =
     (if 10000 \<le> uint (ulValueToSend s) then - GRADIENT s
      else if sint (GRADIENT s) < 0 \<and> uint (ulValueToSend s) = 0 then - GRADIENT s
      else GRADIENT s)"
  by (simp add: reflect_def VOLTAGE_UPPER_BOUND_def VOLTAGE_LOWER_BOUND_def word_le_def
      word_sless_alt)

lemma update_value: "ulValueToSend (waveform_update s) = ulValueToSend s + reflect s"
  by (simp add: waveform_update_def Let_def)

lemma update_gradient: "GRADIENT (waveform_update s) = reflect s"
  by (simp add: waveform_update_def Let_def)

lemma spec_reflect:
  assumes "sint (GRADIENT s) \<noteq> - 2147483648"
  shows "sint (reflect s) = snd (spec_update (uint (ulValueToSend s), sint (GRADIENT s)))"
proof -
  have "uint (ulValueToSend s) \<le> 0 \<longleftrightarrow> uint (ulValueToSend s) = 0"
    using uint_ge_0 [of "ulValueToSend s"] by linarith
  then show ?thesis
    using assms by (simp add: reflect_cases spec_update_def RAW_HIGH_def RAW_LOW_def Let_def sint_neg)
qed

lemma update_eval:
  "waveform_update \<lparr> ulValueToSend = v, GRADIENT = g \<rparr> =
     (if 10000 \<le> v then \<lparr> ulValueToSend = v - g, GRADIENT = - g \<rparr>
      else if g <s 0 \<and> v = 0 then \<lparr> ulValueToSend = v - g, GRADIENT = - g \<rparr>
      else \<lparr> ulValueToSend = v + g, GRADIENT = g \<rparr>)"
  by (simp add: waveform_update_def reflect_def VOLTAGE_UPPER_BOUND_def VOLTAGE_LOWER_BOUND_def
      Let_def)

lemma update_up:
  assumes "GRADIENT s = 500"
  shows "waveform_update s =
     (if 10000 \<le> uint (ulValueToSend s)
      then \<lparr> ulValueToSend = ulValueToSend s - 500, GRADIENT = - 500 \<rparr>
      else \<lparr> ulValueToSend = ulValueToSend s + 500, GRADIENT = 500 \<rparr>)"
  using assms by (simp add: waveform_update_def Let_def reflect_cases)

lemma update_down:
  assumes "GRADIENT s = - 500"
  shows "waveform_update s =
     (if 10000 \<le> uint (ulValueToSend s) \<or> uint (ulValueToSend s) = 0
      then \<lparr> ulValueToSend = ulValueToSend s + 500, GRADIENT = 500 \<rparr>
      else \<lparr> ulValueToSend = ulValueToSend s - 500, GRADIENT = - 500 \<rparr>)"
  using assms by (simp add: waveform_update_def Let_def reflect_cases)

text \<open>
  Claim C2, as the code has it. For a step other than \<^verbatim>\<open>LONG_MIN\<close>, one update
  negates the step when the value is at least 10000, whatever the step's sign, and
  otherwise when the step is negative and the value is at most 0; the new value is the
  old value plus the new step in unsigned 32-bit arithmetic, with no clamping: it is the
  specification's \<open>v + g\<close> reduced modulo \<open>2 ^ 32\<close>, so it equals \<open>v + g\<close> when that
  is not negative and wraps around when it is.
\<close>

theorem update_refines_spec_mod:
  assumes "sint (GRADIENT s) \<noteq> - 2147483648"
  shows "uint (ulValueToSend (waveform_update s)) =
           fst (spec_update (uint (ulValueToSend s), sint (GRADIENT s))) mod 4294967296
       \<and> sint (GRADIENT (waveform_update s)) =
           snd (spec_update (uint (ulValueToSend s), sint (GRADIENT s)))"
proof -
  have "fst (spec_update (uint (ulValueToSend s), sint (GRADIENT s))) =
        uint (ulValueToSend s) + snd (spec_update (uint (ulValueToSend s), sint (GRADIENT s)))"
    by (simp add: spec_update_def Let_def)
  then show ?thesis
    using spec_reflect [OF assms] by (simp add: update_value update_gradient uint_add_sint)
qed

text \<open>
  The theorem at the state \<open>(10000, +500)\<close>: one update gives \<open>(9500, -500)\<close>.
\<close>

theorem update_refines_spec_mod_witness:
  "sint (GRADIENT \<lparr> ulValueToSend = 10000, GRADIENT = 500 \<rparr>) \<noteq> - 2147483648 \<and>
   uint (ulValueToSend (waveform_update \<lparr> ulValueToSend = 10000, GRADIENT = 500 \<rparr>)) = 9500 \<and>
   sint (GRADIENT (waveform_update \<lparr> ulValueToSend = 10000, GRADIENT = 500 \<rparr>)) = - 500"
  using update_refines_spec_mod [of "\<lparr> ulValueToSend = 10000, GRADIENT = 500 \<rparr>"]
  by (simp add: spec_update_def RAW_HIGH_def RAW_LOW_def)

text \<open>
  Claim C2 as stated fails where the sum is negative: from \<open>(300, -500)\<close> the
  specification's update gives the value \<open>-200\<close>, the code stores \<open>2 ^ 32 - 200\<close>,
  which is more than one step above the upper bound.
\<close>

theorem update_wraps_counterexample:
  "spec_update (300, - 500) = (- 200, - 500) \<and>
   uint (ulValueToSend (waveform_update \<lparr> ulValueToSend = 300, GRADIENT = - 500 \<rparr>)) = 4294967096 \<and>
   uint (ulValueToSend (waveform_update \<lparr> ulValueToSend = 300, GRADIENT = - 500 \<rparr>))
     \<noteq> fst (spec_update (300, - 500)) \<and>
   \<not> uint (ulValueToSend (waveform_update \<lparr> ulValueToSend = 300, GRADIENT = - 500 \<rparr>))
     \<le> RAW_HIGH + \<bar>- 500\<bar>"
  by (simp add: spec_update_def RAW_HIGH_def RAW_LOW_def update_eval word_sless_alt)

subsection \<open>Bounded overshoot\<close>

lemma wave_inv_step:
  assumes "wave_inv s" shows "wave_inv (waveform_update s)"
proof -
  obtain x where x: "uint (ulValueToSend s) = x" and b: "0 \<le> x" "x < 4294967296"
    using uint_lt2p [of "ulValueToSend s"] by simp
  from assms consider
    (up) "GRADIENT s = 500" "x \<le> 10500"
  | (down) "GRADIENT s = - 500" "x \<le> 10000 \<or> 4294966797 \<le> x"
    unfolding wave_inv_def x by blast
  then show ?thesis
  proof cases
    case up
    then show ?thesis
      using b by (simp add: wave_inv_def update_up uint_add_500 uint_sub_500 x)
  next
    case down
    then show ?thesis
      using b by (auto simp add: wave_inv_def update_down uint_add_500 uint_sub_500 x)
  qed
qed

lemma wave_inv_funpow: "wave_inv s \<Longrightarrow> wave_inv ((waveform_update ^^ n) s)"
  by (induction n) (simp_all add: wave_inv_step)

lemma valid_state_wave_inv: "valid_state s \<Longrightarrow> wave_inv s"
  by (auto simp add: valid_state_def wave_inv_def GRADIENT_init_val VOLTAGE_UPPER_BOUND_def
      word_le_def)

lemma wave_inv_bounds:
  assumes "wave_inv s"
  shows "- 500 \<le> sint (ulValueToSend s) \<and> sint (ulValueToSend s) \<le> 10500 \<and>
         (uint (ulValueToSend s) \<le> 10500 \<or> 4294966797 \<le> uint (ulValueToSend s))"
proof -
  obtain x where x: "uint (ulValueToSend s) = x" and b: "0 \<le> x" "x < 4294967296"
    using uint_lt2p [of "ulValueToSend s"] by simp
  from assms b show ?thesis
    by (auto simp add: wave_inv_def sint_32_cases x)
qed

text \<open>
  Claim C3, as the code has it. From every valid state (value from 0 to 10000, step
  \<open>+500\<close> or \<open>-500\<close>), after any number of updates the value read as a signed 32-bit
  number lies between \<open>-500\<close> and \<open>10500\<close>: the unsigned value that is stored and sent
  is at most 10500, or has wrapped around to at least \<open>2 ^ 32 - 499\<close>.
\<close>

theorem bounded_overshoot_signed:
  assumes "valid_state s"
  shows "- 500 \<le> sint (ulValueToSend ((waveform_update ^^ n) s)) \<and>
         sint (ulValueToSend ((waveform_update ^^ n) s)) \<le> 10500 \<and>
         (uint (ulValueToSend ((waveform_update ^^ n) s)) \<le> 10500 \<or>
          4294966797 \<le> uint (ulValueToSend ((waveform_update ^^ n) s)))"
  using assms by (intro wave_inv_bounds wave_inv_funpow valid_state_wave_inv)

text \<open>
  The theorem at the valid state \<open>(200, -500)\<close> after one update: the signed reading
  of the value is \<open>-300\<close>.
\<close>

theorem bounded_overshoot_signed_witness:
  "valid_state \<lparr> ulValueToSend = 200, GRADIENT = - 500 \<rparr> \<and>
   sint (ulValueToSend ((waveform_update ^^ 1) \<lparr> ulValueToSend = 200, GRADIENT = - 500 \<rparr>)) = - 300 \<and>
   - 500 \<le> sint (ulValueToSend ((waveform_update ^^ 1) \<lparr> ulValueToSend = 200, GRADIENT = - 500 \<rparr>)) \<and>
   sint (ulValueToSend ((waveform_update ^^ 1) \<lparr> ulValueToSend = 200, GRADIENT = - 500 \<rparr>)) \<le> 10500"
proof -
  have h: "valid_state \<lparr> ulValueToSend = 200, GRADIENT = - 500 \<rparr>"
    by (simp add: valid_state_def GRADIENT_init_val VOLTAGE_UPPER_BOUND_def VOLTAGE_LOWER_BOUND_def)
  have e: "sint (ulValueToSend ((waveform_update ^^ 1) \<lparr> ulValueToSend = 200, GRADIENT = - 500 \<rparr>)) = - 300"
    by (simp add: update_eval word_sless_alt)
  show ?thesis using h e bounded_overshoot_signed [OF h, of 1] by simp
qed

text \<open>
  Claim C3 as stated fails for the value the code stores: from the valid state
  \<open>(200, -500)\<close> one update leaves \<open>2 ^ 32 - 300\<close> in \<^verbatim>\<open>ulValueToSend\<close>, outside
  \<open>[-500, 10500]\<close>.
\<close>

theorem bounded_overshoot_counterexample:
  "valid_state \<lparr> ulValueToSend = 200, GRADIENT = - 500 \<rparr> \<and>
   uint (ulValueToSend (waveform_update \<lparr> ulValueToSend = 200, GRADIENT = - 500 \<rparr>)) = 4294966996 \<and>
   \<not> (RAW_LOW - STEP_MAGNITUDE
          \<le> uint (ulValueToSend (waveform_update \<lparr> ulValueToSend = 200, GRADIENT = - 500 \<rparr>)) \<and>
        uint (ulValueToSend (waveform_update \<lparr> ulValueToSend = 200, GRADIENT = - 500 \<rparr>))
          \<le> RAW_HIGH + STEP_MAGNITUDE)"
  by (simp add: valid_state_def GRADIENT_init_val VOLTAGE_UPPER_BOUND_def VOLTAGE_LOWER_BOUND_def
      RAW_HIGH_def RAW_LOW_def STEP_MAGNITUDE_def update_eval word_sless_alt)

subsection \<open>The magnitude of the step\<close>

lemma wave_inv_gradient: "wave_inv s \<Longrightarrow> \<bar>sint (GRADIENT s)\<bar> = 500"
  by (auto simp add: wave_inv_def)

lemma wave_inv_init: "wave_inv waveform_init"
  by (simp add: wave_inv_def waveform_init_def GRADIENT_init_val VOLTAGE_LOWER_BOUND_def)

lemma reflect_keeps_or_negates: "reflect s = GRADIENT s \<or> reflect s = - GRADIENT s"
  by (simp add: reflect_def)

text \<open>
  Claim C9. The step is initialised to \<open>(10000 - 0) / 20 = 500\<close>; an update leaves it
  as it is or negates it; in every state reached from the initial state its absolute
  value is 500.
\<close>

theorem step_magnitude:
  "GRADIENT_init = 500 \<and>
   (\<forall>s. GRADIENT (waveform_update s) = GRADIENT s \<or> GRADIENT (waveform_update s) = - GRADIENT s) \<and>
   (\<forall>n. \<bar>sint (GRADIENT ((waveform_update ^^ n) waveform_init))\<bar> = 500)"
  by (simp add: GRADIENT_init_val update_gradient reflect_keeps_or_negates wave_inv_gradient
      wave_inv_funpow wave_inv_init)

subsection \<open>Reflection at the upper bound\<close>

lemma reflect_at_top:
  assumes "10000 \<le> uint (ulValueToSend s)" "0 < sint (GRADIENT s)"
    and "uint (ulValueToSend s) - sint (GRADIENT s) < 10000"
  shows "GRADIENT (waveform_update s) = - GRADIENT s"
    and "sint (GRADIENT (waveform_update s)) < 0"
    and "0 < sint (ulValueToSend (waveform_update s)) \<Longrightarrow>
         uint (ulValueToSend (waveform_update s)) < 10000"
proof -
  have n: "sint (- GRADIENT s) = - sint (GRADIENT s)"
    using assms(2) by (intro sint_neg) simp
  show g: "GRADIENT (waveform_update s) = - GRADIENT s"
    using assms(1) by (simp add: update_gradient reflect_cases)
  show "sint (GRADIENT (waveform_update s)) < 0"
    using assms(2) by (simp add: g n)
  have r: "reflect s = - GRADIENT s"
    using assms(1) by (simp add: reflect_cases)
  have u: "uint (ulValueToSend (waveform_update s)) =
        (uint (ulValueToSend s) - sint (GRADIENT s)) mod 4294967296"
    by (simp add: update_value r uint_sub_sint)
  have lo: "- 2147483648 \<le> uint (ulValueToSend s) - sint (GRADIENT s)"
    using sint_bounds32 [of "GRADIENT s"] uint_ge_0 [of "ulValueToSend s"] by linarith
  show "uint (ulValueToSend (waveform_update s)) < 10000"
    if "0 < sint (ulValueToSend (waveform_update s))"
    using wrapped_sum_small [OF lo assms(3) u that] .
qed

lemma descend_step:
  assumes "sint (GRADIENT s) < 0" "uint (ulValueToSend s) < 10000"
    and "0 < sint (ulValueToSend s)"
  shows "GRADIENT (waveform_update s) = GRADIENT s"
    and "0 < sint (ulValueToSend (waveform_update s)) \<Longrightarrow>
         uint (ulValueToSend (waveform_update s)) < 10000"
proof -
  have nz: "uint (ulValueToSend s) \<noteq> 0"
    using assms(3) by (simp add: sint_32_cases split: if_splits)
  have r: "reflect s = GRADIENT s"
    using assms(2) nz by (simp add: reflect_cases)
  show "GRADIENT (waveform_update s) = GRADIENT s"
    by (simp add: update_gradient r)
  have u: "uint (ulValueToSend (waveform_update s)) =
        (uint (ulValueToSend s) + sint (GRADIENT s)) mod 4294967296"
    by (simp add: update_value r uint_add_sint)
  have lo: "- 2147483648 \<le> uint (ulValueToSend s) + sint (GRADIENT s)"
    using sint_bounds32 [of "GRADIENT s"] uint_ge_0 [of "ulValueToSend s"] by linarith
  have hi: "uint (ulValueToSend s) + sint (GRADIENT s) < 10000"
    using assms(1,2) by linarith
  show "uint (ulValueToSend (waveform_update s)) < 10000"
    if "0 < sint (ulValueToSend (waveform_update s))"
    using wrapped_sum_small [OF lo hi u that] .
qed

lemma descent_invariant:
  assumes top: "10000 \<le> uint (ulValueToSend s)" "0 < sint (GRADIENT s)"
      "uint (ulValueToSend s) - sint (GRADIENT s) < 10000"
    and above: "\<forall>k. 1 \<le> k \<and> k < Suc n \<longrightarrow> 0 < sint (ulValueToSend ((waveform_update ^^ k) s))"
  shows "GRADIENT ((waveform_update ^^ Suc n) s) = - GRADIENT s \<and>
         (0 < sint (ulValueToSend ((waveform_update ^^ Suc n) s)) \<longrightarrow>
          uint (ulValueToSend ((waveform_update ^^ Suc n) s)) < 10000)"
  using above
proof (induction n)
  case 0
  show ?case using reflect_at_top [OF top] by simp
next
  case (Suc n)
  let ?t = "(waveform_update ^^ Suc n) s"
  have "\<forall>k. 1 \<le> k \<and> k < Suc n \<longrightarrow> 0 < sint (ulValueToSend ((waveform_update ^^ k) s))"
    using Suc.prems by simp
  from Suc.IH [OF this] have g: "GRADIENT ?t = - GRADIENT s"
    and b: "0 < sint (ulValueToSend ?t) \<Longrightarrow> uint (ulValueToSend ?t) < 10000"
    by simp_all
  have pos: "0 < sint (ulValueToSend ?t)"
    using Suc.prems by (simp del: funpow.simps)
  have neg: "sint (GRADIENT ?t) < 0"
    using top(2) sint_neg [of "GRADIENT s"] by (simp add: g del: funpow.simps)
  have "GRADIENT (waveform_update ?t) = - GRADIENT s"
    using descend_step(1) [OF neg b [OF pos] pos] by (simp only: g)
  moreover have "0 < sint (ulValueToSend (waveform_update ?t)) \<longrightarrow>
      uint (ulValueToSend (waveform_update ?t)) < 10000"
    using descend_step(2) [OF neg b [OF pos] pos] by blast
  ultimately show ?case by simp
qed

text \<open>
  Claim C4, as the code has it. In a state with the value at least 10000 that was
  reached ascending (the step is positive and the value less the step is below 10000),
  the step is negative after the next update, and it is still the same negative step
  after every later update for as long as the value, read as a signed number, was above
  0 at the start of each update in between.
\<close>

theorem reflection_from_ascent:
  assumes "VOLTAGE_UPPER_BOUND \<le> ulValueToSend s" and "0 <s GRADIENT s"
    and "uint (ulValueToSend s) - sint (GRADIENT s) < uint VOLTAGE_UPPER_BOUND"
    and "1 \<le> n"
    and "\<forall>k. 1 \<le> k \<and> k < n \<longrightarrow> 0 <s ulValueToSend ((waveform_update ^^ k) s)"
  shows "GRADIENT ((waveform_update ^^ n) s) = - GRADIENT s \<and>
         GRADIENT ((waveform_update ^^ n) s) <s 0"
proof -
  obtain m where n: "n = Suc m" using assms(4) by (cases n) simp_all
  have top: "10000 \<le> uint (ulValueToSend s)" "0 < sint (GRADIENT s)"
      "uint (ulValueToSend s) - sint (GRADIENT s) < 10000"
    using assms(1-3) by (simp_all add: VOLTAGE_UPPER_BOUND_def word_le_def word_sless_alt)
  have above: "\<forall>k. 1 \<le> k \<and> k < Suc m \<longrightarrow> 0 < sint (ulValueToSend ((waveform_update ^^ k) s))"
    using assms(5) by (simp add: n word_sless_alt)
  have g: "GRADIENT ((waveform_update ^^ n) s) = - GRADIENT s"
    using descent_invariant [OF top above] by (simp add: n)
  moreover have "sint (- GRADIENT s) < 0"
    using top(2) sint_neg [of "GRADIENT s"] by simp
  ultimately show ?thesis by (simp add: word_sless_alt)
qed

text \<open>
  The theorem at the state \<open>(10000, +500)\<close> and three updates.
\<close>

theorem reflection_from_ascent_witness:
  "VOLTAGE_UPPER_BOUND \<le> ulValueToSend \<lparr> ulValueToSend = 10000, GRADIENT = 500 \<rparr> \<and>
   0 <s GRADIENT \<lparr> ulValueToSend = 10000, GRADIENT = 500 \<rparr> \<and>
   (1::nat) \<le> 3 \<and>
   0 <s ulValueToSend ((waveform_update ^^ 1) \<lparr> ulValueToSend = 10000, GRADIENT = 500 \<rparr>) \<and>
   0 <s ulValueToSend ((waveform_update ^^ 2) \<lparr> ulValueToSend = 10000, GRADIENT = 500 \<rparr>) \<and>
   GRADIENT ((waveform_update ^^ 3) \<lparr> ulValueToSend = 10000, GRADIENT = 500 \<rparr>) <s 0"
proof -
  let ?s = "\<lparr> ulValueToSend = 10000, GRADIENT = 500 \<rparr>"
  have h1: "VOLTAGE_UPPER_BOUND \<le> ulValueToSend ?s"
    by (simp add: VOLTAGE_UPPER_BOUND_def)
  have h2: "0 <s GRADIENT ?s"
    by (simp add: word_sless_alt)
  have h3: "uint (ulValueToSend ?s) - sint (GRADIENT ?s) < uint VOLTAGE_UPPER_BOUND"
    by (simp add: VOLTAGE_UPPER_BOUND_def)
  have h4: "(1::nat) \<le> 3" by simp
  have k1: "0 <s ulValueToSend ((waveform_update ^^ 1) ?s)"
    by (simp add: update_eval word_sless_alt)
  have k2: "0 <s ulValueToSend ((waveform_update ^^ 2) ?s)"
    by (simp add: funpow_num update_eval word_sless_alt)
  have h5: "\<forall>k. 1 \<le> k \<and> k < 3 \<longrightarrow> 0 <s ulValueToSend ((waveform_update ^^ k) ?s)"
  proof (intro allI impI)
    fix k :: nat
    assume "1 \<le> k \<and> k < 3"
    then have "k = 1 \<or> k = 2" by linarith
    then show "0 <s ulValueToSend ((waveform_update ^^ k) ?s)"
      using k1 k2 by blast
  qed
  show ?thesis
    using h1 h2 h4 k1 k2 reflection_from_ascent [OF h1 h2 h3 h4 h5] by blast
qed

text \<open>
  Claim C4 as stated fails in a state at the upper bound whose step is already
  negative: from \<open>(10000, -500)\<close> the update negates the step to \<open>+500\<close>.
\<close>

theorem reflection_counterexample:
  "VOLTAGE_UPPER_BOUND \<le> ulValueToSend \<lparr> ulValueToSend = 10000, GRADIENT = - 500 \<rparr> \<and>
   GRADIENT (waveform_update \<lparr> ulValueToSend = 10000, GRADIENT = - 500 \<rparr>) = 500 \<and>
   \<not> GRADIENT (waveform_update \<lparr> ulValueToSend = 10000, GRADIENT = - 500 \<rparr>) <s 0"
  by (simp add: VOLTAGE_UPPER_BOUND_def update_eval word_sless_alt)

text \<open>
  Why the statement asks for a state reached ascending, and reads the value as signed:
  from \<open>(10500, +500)\<close> the value is still at the upper bound after one update and the
  step turns positive again; from \<open>(10200, +500)\<close> the value passes below zero without
  being 0, wraps around, and the step turns positive at the next update.
\<close>

lemma reflection_needs_ascent:
  "VOLTAGE_UPPER_BOUND \<le> ulValueToSend \<lparr> ulValueToSend = 10500, GRADIENT = 500 \<rparr> \<and>
   (waveform_update ^^ 1) \<lparr> ulValueToSend = 10500, GRADIENT = 500 \<rparr>
     = \<lparr> ulValueToSend = 10000, GRADIENT = - 500 \<rparr> \<and>
   (waveform_update ^^ 2) \<lparr> ulValueToSend = 10500, GRADIENT = 500 \<rparr>
     = \<lparr> ulValueToSend = 10500, GRADIENT = 500 \<rparr>"
  by (simp add: VOLTAGE_UPPER_BOUND_def funpow_num update_eval word_sless_alt)

lemma reflection_ends_at_wrap:
  "(waveform_update ^^ 20) \<lparr> ulValueToSend = 10200, GRADIENT = 500 \<rparr>
     = \<lparr> ulValueToSend = 200, GRADIENT = - 500 \<rparr> \<and>
   (waveform_update ^^ 21) \<lparr> ulValueToSend = 10200, GRADIENT = 500 \<rparr>
     = \<lparr> ulValueToSend = 4294966996, GRADIENT = - 500 \<rparr> \<and>
   (waveform_update ^^ 22) \<lparr> ulValueToSend = 10200, GRADIENT = 500 \<rparr>
     = \<lparr> ulValueToSend = 200, GRADIENT = 500 \<rparr>"
  by (simp add: funpow_num update_eval word_sless_alt)

subsection \<open>The trajectory from the initial state\<close>

lemma phase_inv_init: "phase_inv 0 waveform_init"
  by (simp add: phase_inv_def triangle_def waveform_init_def GRADIENT_init_val
      VOLTAGE_LOWER_BOUND_def)

lemma phase_inv_step:
  assumes "phase_inv n s" shows "phase_inv (Suc n) (waveform_update s)"
proof -
  obtain m where m: "n mod 40 = m" and mb: "m < 40" by simp
  have Sm: "Suc n mod 40 = (if m = 39 then 0 else Suc m)"
    by (simp add: mod_Suc m)
  have m0: "m \<le> 20" if "n = 0"
    using that m by simp
  consider (up) "m \<le> 20" "n = 0 \<or> 1 \<le> m" | (down) "n \<noteq> 0" "m = 0 \<or> 20 < m"
    using m0 by linarith
  then show ?thesis
  proof cases
    case up
    with assms have g: "GRADIENT s = 500" and x: "uint (ulValueToSend s) = 500 * int m"
      by (auto simp add: phase_inv_def triangle_def m)
    from up mb show ?thesis
      by (auto simp add: phase_inv_def triangle_def Sm update_up [OF g] uint_add_500 uint_sub_500 x)
  next
    case down
    with assms have g: "GRADIENT s = - 500"
      and x: "uint (ulValueToSend s) = (if m = 0 then 0 else 500 * (40 - int m))"
      by (auto simp add: phase_inv_def triangle_def m)
    from down mb show ?thesis
      by (auto simp add: phase_inv_def triangle_def Sm update_down [OF g] uint_add_500 uint_sub_500 x)
  qed
qed

lemma phase_inv_funpow: "phase_inv n ((waveform_update ^^ n) waveform_init)"
  by (induction n) (simp_all add: phase_inv_init phase_inv_step)

lemma trajectory_closed_form:
  "uint (ulValueToSend ((waveform_update ^^ n) waveform_init)) = triangle n"
  using phase_inv_funpow [of n] by (simp add: phase_inv_def)

lemma triangle_props: "0 \<le> triangle n" "triangle n \<le> 10000" "500 dvd triangle n"
  "triangle (n + 40) = triangle n"
  by (simp_all add: triangle_def)

lemma samples_num:
  "samples (numeral k) s =
     ulValueToSend (waveform_update s) # samples (pred_numeral k) (waveform_update s)"
  by (simp add: numeral_eq_Suc)

lemma init_eval: "waveform_init = \<lparr> ulValueToSend = 0, GRADIENT = 500 \<rparr>"
  by (simp add: waveform_init_def GRADIENT_init_val VOLTAGE_LOWER_BOUND_def)

lemma first_period:
  "samples 40 waveform_init =
      [500, 1000, 1500, 2000, 2500, 3000, 3500, 4000, 4500, 5000,
       5500, 6000, 6500, 7000, 7500, 8000, 8500, 9000, 9500, 10000,
       9500, 9000, 8500, 8000, 7500, 7000, 6500, 6000, 5500, 5000,
       4500, 4000, 3500, 3000, 2500, 2000, 1500, 1000, 500, 0]"
  by (simp add: init_eval samples_num update_eval word_sless_alt)

lemma samples_funpow:
  "samples n s = map (\<lambda>j. ulValueToSend ((waveform_update ^^ Suc j) s)) [0..<n]"
proof (induction n arbitrary: s)
  case 0
  show ?case by simp
next
  case (Suc n)
  have "map (\<lambda>j. ulValueToSend ((waveform_update ^^ Suc j) s)) [0..<Suc n] =
        ulValueToSend (waveform_update s) #
        map (\<lambda>j. ulValueToSend ((waveform_update ^^ Suc j) (waveform_update s))) [0..<n]"
    by (simp only: upt_conv_Cons [of 0 "Suc n"] map_Suc_upt [symmetric] list.map map_map)
       (simp add: funpow_swap1 comp_def)
  then show ?case by (simp add: Suc.IH)
qed

lemma trajectory_word:
  "ulValueToSend ((waveform_update ^^ n) waveform_init) = word_of_int (triangle n)"
  using trajectory_closed_form [of n] by (metis word_of_int_uint)

text \<open>
  Claim C10. From the initial state \<open>(0, +500)\<close> the values after the updates are
  \<open>500, 1000, \<dots>, 10000, 9500, \<dots>, 500, 0\<close>, repeating with period 40; every value
  sent lies between 0 and 10000 and is a multiple of 500.
\<close>

theorem periodic_trajectory:
  "samples 40 waveform_init =
      [500, 1000, 1500, 2000, 2500, 3000, 3500, 4000, 4500, 5000,
       5500, 6000, 6500, 7000, 7500, 8000, 8500, 9000, 9500, 10000,
       9500, 9000, 8500, 8000, 7500, 7000, 6500, 6000, 5500, 5000,
       4500, 4000, 3500, 3000, 2500, 2000, 1500, 1000, 500, 0]
   \<and> (\<forall>n. samples n waveform_init = map (\<lambda>j. word_of_int (triangle (Suc j))) [0..<n])
   \<and> (\<forall>n. uint (ulValueToSend ((waveform_update ^^ n) waveform_init)) = triangle n)
   \<and> (\<forall>n. ulValueToSend ((waveform_update ^^ (n + 40)) waveform_init) =
            ulValueToSend ((waveform_update ^^ n) waveform_init))
   \<and> (\<forall>n. VOLTAGE_LOWER_BOUND \<le> ulValueToSend ((waveform_update ^^ n) waveform_init) \<and>
            ulValueToSend ((waveform_update ^^ n) waveform_init) \<le> VOLTAGE_UPPER_BOUND \<and>
            500 dvd uint (ulValueToSend ((waveform_update ^^ n) waveform_init)))"
proof -
  have a: "\<forall>n. samples n waveform_init = map (\<lambda>j. word_of_int (triangle (Suc j))) [0..<n]"
    by (simp only: samples_funpow trajectory_word) simp
  have b: "\<forall>n. ulValueToSend ((waveform_update ^^ (n + 40)) waveform_init) =
            ulValueToSend ((waveform_update ^^ n) waveform_init)"
    by (simp only: trajectory_word triangle_props(4)) simp
  have c: "\<forall>n. VOLTAGE_LOWER_BOUND \<le> ulValueToSend ((waveform_update ^^ n) waveform_init) \<and>
            ulValueToSend ((waveform_update ^^ n) waveform_init) \<le> VOLTAGE_UPPER_BOUND \<and>
            500 dvd uint (ulValueToSend ((waveform_update ^^ n) waveform_init))"
    using triangle_props(1,2,3)
    by (simp add: VOLTAGE_LOWER_BOUND_def VOLTAGE_UPPER_BOUND_def word_le_def
        trajectory_closed_form)
  show ?thesis
    using first_period a b c trajectory_closed_form by blast
qed

subsection \<open>Publishing with a zero wait\<close>

lemma cycle_returns:
  "prvQueueSendTask_cycle tick (s, q) =
     Some (waveform_update s,
           if length q < mainQUEUE_LENGTH then q @ [encode tick (ulValueToSend (waveform_update s))]
           else q,
           cycle_calls tick (ulValueToSend (waveform_update s))
             (if length q < mainQUEUE_LENGTH then pdPASS else errQUEUE_FULL))"
  by (simp add: prvQueueSendTask_cycle_def xQueueSend_def cycle_calls_def Let_def)

lemma cycles_full:
  "length q = mainQUEUE_LENGTH \<Longrightarrow>
   prvQueueSendTask_cycles ticks (s, q) =
     Some ((waveform_update ^^ length ticks) s, q, refused_calls ticks s)"
  by (induction ticks arbitrary: s) (simp_all add: cycle_returns funpow_swap1 refused_calls_def)

lemma cycles_room:
  assumes "length q < mainQUEUE_LENGTH"
  shows "prvQueueSendTask_cycles (tick # ticks) (s, q) =
     Some ((waveform_update ^^ Suc (length ticks)) s,
           q @ [encode tick (ulValueToSend (waveform_update s))],
           cycle_calls tick (ulValueToSend (waveform_update s)) pdPASS
             @ refused_calls ticks (waveform_update s))"
proof -
  have "length (q @ [encode tick (ulValueToSend (waveform_update s))]) = mainQUEUE_LENGTH"
    using assms by (simp add: mainQUEUE_LENGTH_def)
  from cycles_full [OF this] show ?thesis
    using assms by (simp add: cycle_returns funpow_swap1)
qed

text \<open>
  Claim C7. Every cycle of the producer makes one call of \<^verbatim>\<open>xQueueSend\<close>, with the
  encoded message and block time 0, and no second one. When the queue of length 1 has
  room, the message is appended; when it is full, the call is answered
  \<^verbatim>\<open>errQUEUE_FULL\<close>, the queue stays as it is and the sample is lost. In both cases
  the cycle reaches its end with the waveform updated in the same way, and the status
  appears nowhere but in the call. Over consecutive cycles without the consumer, a queue
  with room takes the first message and every later send is refused; against a full
  queue every send is refused and the waveform goes on as usual.
\<close>

theorem zero_wait_publish:
  "(length q < mainQUEUE_LENGTH \<longrightarrow>
      prvQueueSendTask_cycle tick (s, q) =
        Some (waveform_update s,
              q @ [encode tick (ulValueToSend (waveform_update s))],
              [Call_vTaskDelayUntil, Call_xTaskGetTickCount tick,
               Call_xQueueSend (encode tick (ulValueToSend (waveform_update s))) 0 pdPASS])
      \<and> prvQueueSendTask_cycles (tick # ticks) (s, q) =
        Some ((waveform_update ^^ Suc (length ticks)) s,
              q @ [encode tick (ulValueToSend (waveform_update s))],
              cycle_calls tick (ulValueToSend (waveform_update s)) pdPASS
                @ refused_calls ticks (waveform_update s)))
   \<and> (length q = mainQUEUE_LENGTH \<longrightarrow>
      prvQueueSendTask_cycle tick (s, q) =
        Some (waveform_update s, q,
              [Call_vTaskDelayUntil, Call_xTaskGetTickCount tick,
               Call_xQueueSend (encode tick (ulValueToSend (waveform_update s))) 0 errQUEUE_FULL])
      \<and> prvQueueSendTask_cycles ticks (s, q) =
        Some ((waveform_update ^^ length ticks) s, q, refused_calls ticks s))"
proof -
  have room: "prvQueueSendTask_cycle tick (s, q) =
        Some (waveform_update s,
              q @ [encode tick (ulValueToSend (waveform_update s))],
              [Call_vTaskDelayUntil, Call_xTaskGetTickCount tick,
               Call_xQueueSend (encode tick (ulValueToSend (waveform_update s))) 0 pdPASS])"
    if "length q < mainQUEUE_LENGTH"
    using that by (simp add: cycle_returns cycle_calls_def)
  have full: "prvQueueSendTask_cycle tick (s, q) =
        Some (waveform_update s, q,
              [Call_vTaskDelayUntil, Call_xTaskGetTickCount tick,
               Call_xQueueSend (encode tick (ulValueToSend (waveform_update s))) 0 errQUEUE_FULL])"
    if "length q = mainQUEUE_LENGTH"
    using that by (simp add: cycle_returns cycle_calls_def)
  show ?thesis
    using room full cycles_room [of q tick ticks s] cycles_full [of q ticks s] by blast
qed

text \<open>
  The theorem with an empty queue at ticks 1000, 2000 and 3000 from the initial state,
  and with the message of tick 1000 still in the queue at ticks 2000 and 3000.
\<close>

theorem zero_wait_publish_witness:
  "length ([] :: queue) < mainQUEUE_LENGTH
   \<and> prvQueueSendTask_cycle 1000 (\<lparr> ulValueToSend = 0, GRADIENT = 500 \<rparr>, [])
       = Some (\<lparr> ulValueToSend = 500, GRADIENT = 500 \<rparr>, [encode 1000 500],
               [Call_vTaskDelayUntil, Call_xTaskGetTickCount 1000,
                Call_xQueueSend (encode 1000 500) 0 pdPASS])
   \<and> prvQueueSendTask_cycles [1000, 2000, 3000] (\<lparr> ulValueToSend = 0, GRADIENT = 500 \<rparr>, [])
       = Some (\<lparr> ulValueToSend = 1500, GRADIENT = 500 \<rparr>, [encode 1000 500],
               [Call_vTaskDelayUntil, Call_xTaskGetTickCount 1000,
                Call_xQueueSend (encode 1000 500) 0 pdPASS,
                Call_vTaskDelayUntil, Call_xTaskGetTickCount 2000,
                Call_xQueueSend (encode 2000 1000) 0 errQUEUE_FULL,
                Call_vTaskDelayUntil, Call_xTaskGetTickCount 3000,
                Call_xQueueSend (encode 3000 1500) 0 errQUEUE_FULL])
   \<and> length [encode 1000 500] = mainQUEUE_LENGTH
   \<and> prvQueueSendTask_cycle 2000 (\<lparr> ulValueToSend = 500, GRADIENT = 500 \<rparr>, [encode 1000 500])
       = Some (\<lparr> ulValueToSend = 1000, GRADIENT = 500 \<rparr>, [encode 1000 500],
               [Call_vTaskDelayUntil, Call_xTaskGetTickCount 2000,
                Call_xQueueSend (encode 2000 1000) 0 errQUEUE_FULL])
   \<and> prvQueueSendTask_cycles [2000, 3000] (\<lparr> ulValueToSend = 500, GRADIENT = 500 \<rparr>, [encode 1000 500])
       = Some (\<lparr> ulValueToSend = 1500, GRADIENT = 500 \<rparr>, [encode 1000 500],
               [Call_vTaskDelayUntil, Call_xTaskGetTickCount 2000,
                Call_xQueueSend (encode 2000 1000) 0 errQUEUE_FULL,
                Call_vTaskDelayUntil, Call_xTaskGetTickCount 3000,
                Call_xQueueSend (encode 3000 1500) 0 errQUEUE_FULL])"
proof -
  let ?s0 = "\<lparr> ulValueToSend = 0, GRADIENT = 500 \<rparr>"
  let ?s1 = "\<lparr> ulValueToSend = 500, GRADIENT = 500 \<rparr>"
  have room: "length ([] :: queue) < mainQUEUE_LENGTH"
    by (simp add: mainQUEUE_LENGTH_def)
  have full: "length [encode 1000 500] = mainQUEUE_LENGTH"
    by (simp add: mainQUEUE_LENGTH_def)
  have r: "refused_calls [2000, 3000] ?s1 =
      [Call_vTaskDelayUntil, Call_xTaskGetTickCount 2000,
       Call_xQueueSend (encode 2000 1000) 0 errQUEUE_FULL,
       Call_vTaskDelayUntil, Call_xTaskGetTickCount 3000,
       Call_xQueueSend (encode 3000 1500) 0 errQUEUE_FULL]"
    by (simp add: refused_calls_def cycle_calls_def samples_num update_eval word_sless_alt)
  have c: "cycle_calls 1000 500 pdPASS =
      [Call_vTaskDelayUntil, Call_xTaskGetTickCount 1000,
       Call_xQueueSend (encode 1000 500) 0 pdPASS]"
    by (simp add: cycle_calls_def)
  note a = zero_wait_publish [of "[]" 1000 ?s0 "[2000, 3000]", THEN conjunct1, rule_format, OF room]
  note b = zero_wait_publish [of "[encode 1000 500]" 2000 ?s1 "[2000, 3000]",
      THEN conjunct2, rule_format, OF full]
  have a': "prvQueueSendTask_cycle 1000 (?s0, []) =
        Some (?s1, [encode 1000 500],
              [Call_vTaskDelayUntil, Call_xTaskGetTickCount 1000,
               Call_xQueueSend (encode 1000 500) 0 pdPASS])"
    and a'': "prvQueueSendTask_cycles [1000, 2000, 3000] (?s0, []) =
        Some (\<lparr> ulValueToSend = 1500, GRADIENT = 500 \<rparr>, [encode 1000 500],
              [Call_vTaskDelayUntil, Call_xTaskGetTickCount 1000,
               Call_xQueueSend (encode 1000 500) 0 pdPASS,
               Call_vTaskDelayUntil, Call_xTaskGetTickCount 2000,
               Call_xQueueSend (encode 2000 1000) 0 errQUEUE_FULL,
               Call_vTaskDelayUntil, Call_xTaskGetTickCount 3000,
               Call_xQueueSend (encode 3000 1500) 0 errQUEUE_FULL])"
    using a by (simp_all add: r c update_eval word_sless_alt del: prvQueueSendTask_cycles.simps)
  have b': "prvQueueSendTask_cycle 2000 (?s1, [encode 1000 500]) =
        Some (\<lparr> ulValueToSend = 1000, GRADIENT = 500 \<rparr>, [encode 1000 500],
              [Call_vTaskDelayUntil, Call_xTaskGetTickCount 2000,
               Call_xQueueSend (encode 2000 1000) 0 errQUEUE_FULL])"
    and b'': "prvQueueSendTask_cycles [2000, 3000] (?s1, [encode 1000 500]) =
        Some (\<lparr> ulValueToSend = 1500, GRADIENT = 500 \<rparr>, [encode 1000 500],
              [Call_vTaskDelayUntil, Call_xTaskGetTickCount 2000,
               Call_xQueueSend (encode 2000 1000) 0 errQUEUE_FULL,
               Call_vTaskDelayUntil, Call_xTaskGetTickCount 3000,
               Call_xQueueSend (encode 3000 1500) 0 errQUEUE_FULL])"
    using b by (simp_all add: r update_eval word_sless_alt del: prvQueueSendTask_cycles.simps)
  show ?thesis
    by (intro conjI room full a' a'' b' b'')
qed

subsection \<open>Start-up\<close>

text \<open>
  Claim C8, as the code has it. When the queue cannot be created, \<^verbatim>\<open>main_blinky\<close>
  creates no task, does not start the scheduler, makes no second attempt and stays in its
  final loop. When the queue was created, both tasks are requested and the scheduler is
  started, whatever the two \<^verbatim>\<open>xTaskCreate\<close> calls returned.
\<close>

theorem startup_queue_failure:
  "(\<not> queue_created env \<longrightarrow> main_blinky env = ([Call_xQueueCreate], Idle_loop []))
   \<and> (queue_created env \<longrightarrow>
        fst (main_blinky env) =
          [Call_xQueueCreate, Call_xTaskCreate Rx, Call_xTaskCreate TX, Call_vTaskStartScheduler])"
  by (simp add: main_blinky_def Let_def)

text \<open>
  The theorem in an environment where the queue cannot be created, and in one where
  the queue is created and neither task is.
\<close>

theorem startup_queue_failure_witness:
  "\<not> queue_created \<lparr> queue_created = False, rx_created = True, tx_created = True,
                      scheduler_started = True \<rparr>
   \<and> main_blinky \<lparr> queue_created = False, rx_created = True, tx_created = True,
                    scheduler_started = True \<rparr> = ([Call_xQueueCreate], Idle_loop [])
   \<and> queue_created \<lparr> queue_created = True, rx_created = False, tx_created = False,
                      scheduler_started = True \<rparr>
   \<and> fst (main_blinky \<lparr> queue_created = True, rx_created = False, tx_created = False,
                    scheduler_started = True \<rparr>) =
          [Call_xQueueCreate, Call_xTaskCreate Rx, Call_xTaskCreate TX, Call_vTaskStartScheduler]"
  using startup_queue_failure [of "\<lparr> queue_created = False, rx_created = True, tx_created = True,
                      scheduler_started = True \<rparr>"]
    startup_queue_failure [of "\<lparr> queue_created = True, rx_created = False, tx_created = False,
                      scheduler_started = True \<rparr>"]
  by simp

text \<open>
  Claim C8 as stated fails when a task cannot be created: with the queue created and
  the receive task not, the scheduler is started with the send task alone.
\<close>

theorem startup_task_failure_counterexample:
  "main_blinky \<lparr> queue_created = True, rx_created = False, tx_created = True,
                 scheduler_started = True \<rparr>
     = ([Call_xQueueCreate, Call_xTaskCreate Rx, Call_xTaskCreate TX, Call_vTaskStartScheduler],
        Scheduler_running [TX])"
  by (simp add: main_blinky_def)

subsection \<open>The conversion to the temperature\<close>

lemma temperature_unfold:
  "temperature reading =
     long_of_double (round_double (round_double (round_double
       (double_of_ulong reading / 10000) * 110000) + (- 25000)))"
  by (simp add: temperature_def Let_def double_constants VOLTAGE_LOWER_BOUND_def)

lemma conversion_error:
  assumes "uint reading \<le> 10000"
  shows "\<bar>round_double (round_double (round_double (double_of_ulong reading / 10000) * 110000)
           + (- 25000)) - (11 * real_of_int (uint reading) - 25000)\<bar> \<le> 1 / 1000"
proof -
  define r where "r = real_of_int (uint reading)"
  define a where "a = double_of_ulong reading"
  define q where "q = round_double (a / 10000)"
  define p where "p = round_double (q * 110000)"
  define t where "t = round_double (p + (- 25000))"
  have r: "0 \<le> r" "r \<le> 10000"
    using assms uint_ge_0 [of reading] unfolding r_def by linarith+
  have "\<bar>r\<bar> < 131072" using r by simp
  then have "\<bar>a - r\<bar> \<le> 1 / 137438953472"
    unfolding a_def double_of_ulong_def r_def by (rule round_double_error_17)
  then have a: "r - 1 / 137438953472 \<le> a" "a \<le> r + 1 / 137438953472"
    by linarith+
  have "\<bar>a / 10000\<bar> < 131072" using a r by linarith
  then have "\<bar>q - a / 10000\<bar> \<le> 1 / 137438953472"
    unfolding q_def by (rule round_double_error_17)
  then have q: "a / 10000 - 1 / 137438953472 \<le> q" "q \<le> a / 10000 + 1 / 137438953472"
    by linarith+
  have "\<bar>q * 110000\<bar> < 131072" using q a r by linarith
  then have "\<bar>p - q * 110000\<bar> \<le> 1 / 137438953472"
    unfolding p_def by (rule round_double_error_17)
  then have p: "q * 110000 - 1 / 137438953472 \<le> p" "p \<le> q * 110000 + 1 / 137438953472"
    by linarith+
  have "\<bar>p + (- 25000)\<bar> < 131072" using p q a r by linarith
  then have "\<bar>t - (p + (- 25000))\<bar> \<le> 1 / 137438953472"
    unfolding t_def by (rule round_double_error_17)
  then have t: "p + (- 25000) - 1 / 137438953472 \<le> t" "t \<le> p + (- 25000) + 1 / 137438953472"
    by linarith+
  have "\<bar>t - (11 * r - 25000)\<bar> \<le> 1 / 1000"
    using t p q a r by linarith
  then show ?thesis
    by (simp only: t_def p_def q_def a_def r_def)
qed

lemma long_of_double_near:
  assumes "\<bar>t - real_of_int n\<bar> \<le> 1 / 1000" and "- 110000 \<le> n" "n \<le> 110000"
  shows "\<exists>w. long_of_double t = Some w \<and> n - 1 \<le> sint w \<and> sint w \<le> n + 1"
proof -
  define k where "k = (if 0 \<le> t then \<lfloor>t\<rfloor> else \<lceil>t\<rceil>)"
  have t: "real_of_int n - 1 / 1000 \<le> t" "t \<le> real_of_int n + 1 / 1000"
    using assms(1) by linarith+
  have fl: "real_of_int \<lfloor>t\<rfloor> \<le> t" "t < real_of_int \<lfloor>t\<rfloor> + 1"
    by linarith+
  have ce: "t \<le> real_of_int \<lceil>t\<rceil>" "real_of_int \<lceil>t\<rceil> - 1 < t"
    by linarith+
  have "k = \<lfloor>t\<rfloor> \<or> k = \<lceil>t\<rceil>"
    by (simp add: k_def)
  then have "real_of_int n - 2 < real_of_int k \<and> real_of_int k < real_of_int n + 2"
  proof
    assume e: "k = \<lfloor>t\<rfloor>"
    show ?thesis unfolding e using t fl by linarith
  next
    assume e: "k = \<lceil>t\<rceil>"
    show ?thesis unfolding e using t ce by linarith
  qed
  then have k: "n - 1 \<le> k" "k \<le> n + 1"
    by linarith+
  with assms(2,3) have range: "- 2147483648 \<le> k" "k \<le> 2147483647"
    by linarith+
  then have "long_of_double t = Some (word_of_int k)"
    by (simp add: long_of_double_def k_def Let_def)
  moreover have "sint (word_of_int k :: 32 word) = k"
    using range by (rule sint_word_of_int_32)
  ultimately show ?thesis using k by simp
qed

lemma temperature_near:
  assumes "uint reading \<le> 10000"
  shows "\<exists>w. temperature reading = Some w \<and>
             11 * uint reading - 25001 \<le> sint w \<and> sint w \<le> 11 * uint reading - 24999"
proof -
  have "0 \<le> uint reading" by simp
  with assms have n: "- 110000 \<le> 11 * uint reading - 25000" "11 * uint reading - 25000 \<le> 110000"
    by linarith+
  have "\<bar>round_double (round_double (round_double (double_of_ulong reading / 10000) * 110000)
           + (- 25000)) - real_of_int (11 * uint reading - 25000)\<bar> \<le> 1 / 1000"
    using conversion_error [OF assms] by simp
  from long_of_double_near [OF this n] show ?thesis
    by (simp add: temperature_unfold)
qed

lemma temperature_low: "temperature VOLTAGE_LOWER_BOUND = Some TEMPERATURE_LOWER_BOUND"
  by (simp add: temperature_unfold VOLTAGE_LOWER_BOUND_def TEMPERATURE_LOWER_BOUND_def
      double_of_ulong_def long_of_double_def round_double_eval)

lemma temperature_high: "temperature VOLTAGE_UPPER_BOUND = Some TEMPERATURE_UPPER_BOUND"
  by (simp add: temperature_unfold VOLTAGE_UPPER_BOUND_def TEMPERATURE_UPPER_BOUND_def
      double_of_ulong_def long_of_double_def round_double_eval)

lemma temperature_monotone:
  assumes "a < b" "b \<le> VOLTAGE_UPPER_BOUND"
  shows "\<exists>x y. temperature a = Some x \<and> temperature b = Some y \<and> x <s y"
proof -
  have b: "uint b \<le> 10000"
    using assms(2) by (simp add: VOLTAGE_UPPER_BOUND_def word_le_def)
  have ab: "uint a < uint b"
    using assms(1) by (simp add: word_less_def)
  with b have a: "uint a \<le> 10000" by linarith
  from temperature_near [OF a] obtain x where
    x: "temperature a = Some x" "sint x \<le> 11 * uint a - 24999" by blast
  from temperature_near [OF b] obtain y where
    y: "temperature b = Some y" "11 * uint b - 25001 \<le> sint y" by blast
  have "sint x < sint y" using x(2) y(2) ab by linarith
  then show ?thesis using x(1) y(1) by (simp add: word_sless_alt)
qed

text \<open>
  The result is within 1 of the exact affine value, and for some readings it is not
  the exact value: the sum computed in \<^verbatim>\<open>double\<close> for the reading 2502 lies just
  below 2522, and the conversion to \<^verbatim>\<open>long\<close> truncates it to 2521.
\<close>

lemma temperature_near_spec:
  assumes "reading \<le> VOLTAGE_UPPER_BOUND"
  shows "\<exists>w. temperature reading = Some w \<and>
             \<bar>real_of_int (sint w) - spec_convert (uint reading)\<bar> \<le> 1"
proof -
  have "uint reading \<le> 10000"
    using assms by (simp add: VOLTAGE_UPPER_BOUND_def word_le_def)
  from temperature_near [OF this] obtain w where w: "temperature reading = Some w"
    "11 * uint reading - 25001 \<le> sint w" "sint w \<le> 11 * uint reading - 24999"
    by blast
  have "spec_convert (uint reading) = real_of_int (11 * uint reading - 25000)"
    by (simp add: spec_convert_def RAW_LOW_def RAW_HIGH_def PHYS_LOW_def PHYS_HIGH_def)
  moreover have "\<bar>real_of_int (sint w) - real_of_int (11 * uint reading - 25000)\<bar> \<le> 1"
    using w(2,3) by linarith
  ultimately show ?thesis using w(1) by simp
qed

lemma temperature_truncates:
  "temperature 2502 = Some 2521 \<and> spec_convert 2502 = 2522"
  by (simp add: temperature_unfold double_of_ulong_def long_of_double_def round_double_eval
      spec_convert_def RAW_LOW_def RAW_HIGH_def PHYS_LOW_def PHYS_HIGH_def)

text \<open>
  Outside the raw range the result need not be a \<^verbatim>\<open>long\<close>: for the wrapped value
  \<open>2 ^ 32 - 300\<close> the sum is about \<open>4.7 * 10 ^ 10\<close>.
\<close>

lemma temperature_of_wrapped_value: "temperature 4294966996 = None"
  by (simp add: temperature_unfold double_of_ulong_def long_of_double_def round_double_eval)

text \<open>
  Claim C5. The conversion maps the lower voltage bound 0 to exactly \<open>-25000\<close> and the
  upper voltage bound 10000 to exactly \<open>85000\<close>, and it is strictly increasing on the
  readings from 0 to 10000.
\<close>

theorem conversion_endpoints_monotone:
  "temperature VOLTAGE_LOWER_BOUND = Some TEMPERATURE_LOWER_BOUND \<and>
   temperature VOLTAGE_UPPER_BOUND = Some TEMPERATURE_UPPER_BOUND \<and>
   (\<forall>a b. a < b \<and> b \<le> VOLTAGE_UPPER_BOUND \<longrightarrow>
      (\<exists>x y. temperature a = Some x \<and> temperature b = Some y \<and> x <s y))"
  using temperature_low temperature_high temperature_monotone by blast

text \<open>
  The theorem at the readings 2501 and 2502.
\<close>

theorem conversion_endpoints_monotone_witness:
  "(2501 :: uint32_t) < 2502 \<and> (2502 :: uint32_t) \<le> VOLTAGE_UPPER_BOUND \<and>
   temperature 2501 = Some 2511 \<and> temperature 2502 = Some 2521 \<and>
   (\<exists>x y. temperature 2501 = Some x \<and> temperature 2502 = Some y \<and> x <s y)"
proof -
  have h: "(2501 :: uint32_t) < 2502 \<and> (2502 :: uint32_t) \<le> VOLTAGE_UPPER_BOUND"
    by (simp add: VOLTAGE_UPPER_BOUND_def)
  have a: "temperature 2501 = Some 2511"
    by (simp add: temperature_unfold double_of_ulong_def long_of_double_def round_double_eval)
  have b: "temperature 2502 = Some 2521"
    by (simp add: temperature_unfold double_of_ulong_def long_of_double_def round_double_eval)
  have "\<exists>x y. temperature 2501 = Some x \<and> temperature 2502 = Some y \<and> x <s y"
    using conversion_endpoints_monotone h by blast
  with h a b show ?thesis by blast
qed

text \<open>
  Claim C6. The conversion of the reading 5000, the midpoint of the voltage range, is
  exactly 30000, the midpoint of the temperature range.
\<close>

theorem midpoint_conversion:
  "temperature 5000 = Some 30000 \<and> spec_convert 5000 = 30000 \<and>
   2 * uint (5000 :: uint32_t) = uint VOLTAGE_LOWER_BOUND + uint VOLTAGE_UPPER_BOUND \<and>
   2 * sint (30000 :: long) = sint TEMPERATURE_LOWER_BOUND + sint TEMPERATURE_UPPER_BOUND"
  by (simp add: temperature_unfold double_of_ulong_def long_of_double_def round_double_eval
      spec_convert_def RAW_LOW_def RAW_HIGH_def PHYS_LOW_def PHYS_HIGH_def
      VOLTAGE_LOWER_BOUND_def VOLTAGE_UPPER_BOUND_def TEMPERATURE_LOWER_BOUND_def
      TEMPERATURE_UPPER_BOUND_def)

end
